theory Spec2Isabelle
  imports
    Main
    "HOL-Library.Word"
    "HOL-Library.Multiset"
    "HOL-Library.Sublist"
    "HOL-Library.Char_ord"
    "HOL-Library.List_Lexorder"
    "HOL-Library.Product_Lexorder"
begin

section \<open>Errors\<close>

text \<open>
  Every Go \<^verbatim>\<open>error\<close> value the modelled functions can return. \<open>ErrDriver\<close> stands for
  whatever \<^verbatim>\<open>database/sql\<close> reports when a statement or a transaction call does not
  reach the server or is refused by it (closed connection, cancelled context, ...);
  \<open>ErrDuplicateEntry\<close> is MySQL's error 1062 on a primary key;
  \<open>ErrTxRollback e rb\<close> is \<^verbatim>\<open>fmt.Errorf("tx err: %v, rb err: %v", err, rbErr)\<close>.
\<close>

datatype error =
    ErrDriver string
  | ErrDuplicateEntry string
  | ErrTxRollback error error
  | ErrAlreadyRunning
  | ErrCanal string
  | ErrContextCanceled

section \<open>The state store (store/models.go, store/mysql.go, the migrations)\<close>

text \<open>
  \<^verbatim>\<open>time.Time\<close> is a number of seconds, \<^verbatim>\<open>sql.NullString\<close>, \<^verbatim>\<open>sql.NullInt64\<close> and
  \<^verbatim>\<open>sql.NullTime\<close> are options, \<^verbatim>\<open>json.RawMessage\<close> is an optional byte string
  (\<open>None\<close> is the nil slice, stored as SQL NULL). Field names carry a prefix where two
  structs share a name.
\<close>

record SyncState =
  ss_TableName :: string
  LastSyncTime :: "int option"
  BinlogFile :: "string option"
  BinlogPosition :: "64 word option"
  RowsSynced :: "64 word"
  SyncDirection :: string
  ss_Status :: string
  ss_ErrorMessage :: "string option"
  UpdatedAt :: int

record Conflict =
  ID :: string
  TableName :: string
  PrimaryKeyValue :: string
  LocalData :: "string option"
  CloudData :: "string option"
  ConflictType :: string
  DetectedAt :: int
  Resolved :: bool
  ResolutionStrategy :: "string option"
  ResolvedAt :: "int option"
  ResolvedData :: "string option"

text \<open>
  The two tables of the state database that the modelled operations touch, as the rows
  they hold. \<open>sync_state\<close> has the primary key \<open>table_name\<close>, \<open>conflicts\<close> has the primary
  key \<open>id\<close> and no other unique index (migrations: three plain indexes on
  \<open>conflicts(resolved)\<close>, \<open>conflicts(table_name)\<close>, \<open>sync_history(started_at)\<close>).
  Keys are compared as byte strings.
\<close>

record MySQLStore =
  sync_state :: "SyncState list"
  conflicts :: "Conflict list"

text \<open>
  Every operation takes \<open>io\<close>, the error with which \<^verbatim>\<open>ExecContext\<close> gives up before the
  statement changes anything (\<open>None\<close> when the statement runs), and \<open>now\<close>, the server's
  \<^verbatim>\<open>NOW()\<close>. It returns the Go error and the store afterwards.
\<close>

definition GetSyncState :: "MySQLStore \<Rightarrow> string \<Rightarrow> SyncState option" where
  "GetSyncState s tableName = find (\<lambda>r. ss_TableName r = tableName) (sync_state s)"

definition UpdateSyncState ::
    "error option \<Rightarrow> int \<Rightarrow> SyncState \<Rightarrow> MySQLStore \<Rightarrow> error option \<times> MySQLStore" where
  "UpdateSyncState io now state s =
     (case io of
        Some e \<Rightarrow> (Some e, s)
      | None \<Rightarrow>
          (let row = state\<lparr>UpdatedAt := now\<rparr> in
           if \<exists>r \<in> set (sync_state s). ss_TableName r = ss_TableName state
           then (None, s\<lparr>sync_state :=
                   map (\<lambda>r. if ss_TableName r = ss_TableName state then row else r)
                     (sync_state s)\<rparr>)
           else (None, s\<lparr>sync_state := sync_state s @ [row]\<rparr>)))"

definition CreateConflict ::
    "error option \<Rightarrow> Conflict \<Rightarrow> MySQLStore \<Rightarrow> error option \<times> MySQLStore" where
  "CreateConflict io conflict s =
     (case io of
        Some e \<Rightarrow> (Some e, s)
      | None \<Rightarrow>
          if \<exists>r \<in> set (conflicts s). ID r = ID conflict
          then (Some (ErrDuplicateEntry (ID conflict)), s)
          else (None, s\<lparr>conflicts := conflicts s @
                 [conflict\<lparr>ResolutionStrategy := None, ResolvedAt := None,
                            ResolvedData := None\<rparr>]\<rparr>))"

definition ResolveConflict ::
    "error option \<Rightarrow> int \<Rightarrow> string \<Rightarrow> string \<Rightarrow> string option \<Rightarrow> MySQLStore
      \<Rightarrow> error option \<times> MySQLStore" where
  "ResolveConflict io now ident strategy resolvedData s =
     (case io of
        Some e \<Rightarrow> (Some e, s)
      | None \<Rightarrow>
          (None, s\<lparr>conflicts :=
             map (\<lambda>r. if ID r = ident
                       then r\<lparr>Resolved := True, ResolutionStrategy := Some strategy,
                              ResolvedData := resolvedData, ResolvedAt := Some now\<rparr>
                       else r)
               (conflicts s)\<rparr>))"

text \<open>The unresolved conflicts recorded for one \<open>(table_name, primary_key_value)\<close>.\<close>

definition unresolved_for :: "MySQLStore \<Rightarrow> string \<Rightarrow> string \<Rightarrow> Conflict list" where
  "unresolved_for s t pk =
     filter (\<lambda>r. TableName r = t \<and> PrimaryKeyValue r = pk \<and> \<not> Resolved r) (conflicts s)"

section \<open>Transactions on the destination (database.ExecTx)\<close>

text \<open>
  What the driver answers to the three transaction calls of one \<^verbatim>\<open>ExecTx\<close>:
  \<^verbatim>\<open>BeginTx\<close>, \<^verbatim>\<open>Rollback\<close>, \<^verbatim>\<open>Commit\<close> (\<open>None\<close> is a nil error). The callback runs on the
  transaction's view of the database and returns an error or the view it leaves; only a
  successful \<^verbatim>\<open>Commit\<close> makes that view the database. A \<^verbatim>\<open>Commit\<close> that returns an
  error has committed nothing.
\<close>

record tx_driver =
  begin_err :: "error option"
  rollback_err :: "error option"
  commit_err :: "error option"

definition ExecTx ::
    "tx_driver \<Rightarrow> ('db \<Rightarrow> error + 'db) \<Rightarrow> 'db \<Rightarrow> error option \<times> 'db" where
  "ExecTx drv fn db =
     (case begin_err drv of
        Some err \<Rightarrow> (Some err, db)
      | None \<Rightarrow>
          (case fn db of
             Inl err \<Rightarrow>
               (case rollback_err drv of
                  Some rbErr \<Rightarrow> (Some (ErrTxRollback err rbErr), db)
                | None \<Rightarrow> (Some err, db))
           | Inr tx \<Rightarrow>
               (case commit_err drv of
                  Some err \<Rightarrow> (Some err, db)
                | None \<Rightarrow> (None, tx))))"

section \<open>Binlog events and the change queue\<close>

datatype EventType = Insert | Update | Delete

record 'v BinlogEvent =
  Type :: EventType
  Schema :: string
  Table :: string
  Rows :: "'v list list"
  Timestamp :: "32 word"
  ev_BinlogFile :: string
  BinlogPos :: "32 word"

text \<open>
  A buffered Go channel: the elements it holds, oldest first, its capacity, and whether
  \<^verbatim>\<open>close\<close> was called on it.
\<close>

record 'a chan =
  buf :: "'a list"
  cap :: nat
  closed :: bool

section \<open>The worker pool\<close>

text \<open>
  A worker is its id, its batch, and whether \<^verbatim>\<open>run\<close> has returned. The pool holds the
  workers, the receiving end of the channel, the destination database, the state store,
  its context (cancelled or not) and the batch size. \<open>applied\<close> is a trace: the
  \<open>(worker, table, events)\<close> groups for which \<^verbatim>\<open>applyChanges\<close> returned nil, in the order
  of the calls.
\<close>

record 'v Worker =
  w_id :: nat
  batch :: "'v BinlogEvent list"
  returned :: bool

record ('v, 'db) WorkerPool =
  workers :: "'v Worker list"
  wp_eventChan :: "'v BinlogEvent chan"
  targetDB :: 'db
  wp_store :: MySQLStore
  wp_ctx_done :: bool
  batchSize :: int
  applied :: "(nat \<times> string \<times> 'v BinlogEvent list) list"

text \<open>
  What the surroundings decide during one \<^verbatim>\<open>processBatch\<close>: the driver's answers to the
  transaction of each table's group, the answer to the \<^verbatim>\<open>UpdateSyncState\<close> statement of
  each table, the state database's clock, and the order in which Go's \<^verbatim>\<open>range\<close> visits
  the keys of \<^verbatim>\<open>eventsByTable\<close>.
\<close>

record env =
  tx :: "string \<Rightarrow> tx_driver"
  sio :: "string \<Rightarrow> error option"
  now :: int
  order :: "string list"

text \<open>\<^verbatim>\<open>eventsByTable[e.Table] = append(eventsByTable[e.Table], e)\<close> for each event of the batch.\<close>

definition eventsByTable :: "'v BinlogEvent list \<Rightarrow> (string \<rightharpoonup> 'v BinlogEvent list)" where
  "eventsByTable b =
     foldl (\<lambda>m e. m(Table e \<mapsto> (case m (Table e) of None \<Rightarrow> [] | Some es \<Rightarrow> es) @ [e]))
       Map.empty b"

text \<open>
  \<^verbatim>\<open>applyChanges\<close>: one transaction whose callback walks the events, executes no
  statement (the SQL generation is a placeholder) and returns nil.
\<close>

definition applyChanges ::
    "tx_driver \<Rightarrow> string \<Rightarrow> 'v BinlogEvent list \<Rightarrow> 'db \<Rightarrow> error option \<times> 'db" where
  "applyChanges drv table events db =
     ExecTx drv (\<lambda>t. Inr (foldl (\<lambda>t' e. t') t events)) db"

text \<open>
  \<^verbatim>\<open>updateState\<close>: the row built from the last event, written through
  \<^verbatim>\<open>UpdateSyncState\<close>; the error of the write is discarded.
\<close>

definition updateState ::
    "error option \<Rightarrow> int \<Rightarrow> string \<Rightarrow> 'v BinlogEvent \<Rightarrow> MySQLStore \<Rightarrow> MySQLStore" where
  "updateState io nw table lastEvent s =
     snd (UpdateSyncState io nw
       \<lparr>ss_TableName = table,
        LastSyncTime = Some (uint (Timestamp lastEvent)),
        BinlogFile = Some (ev_BinlogFile lastEvent),
        BinlogPosition = Some (ucast (BinlogPos lastEvent)),
        RowsSynced = 0,
        SyncDirection = [],
        ss_Status = ''running'',
        ss_ErrorMessage = None,
        UpdatedAt = 0\<rparr> s)"

text \<open>
  One round of the loop over \<^verbatim>\<open>eventsByTable\<close> in \<^verbatim>\<open>processBatch\<close>, for the key
  \<open>table\<close>: on an error the failure is logged and nothing else happens, otherwise the
  state is updated from the group's last event.
\<close>

definition processGroup ::
    "env \<Rightarrow> nat \<Rightarrow> (string \<rightharpoonup> 'v BinlogEvent list) \<Rightarrow> string
      \<Rightarrow> 'db \<times> MySQLStore \<times> (nat \<times> string \<times> 'v BinlogEvent list) list
      \<Rightarrow> 'db \<times> MySQLStore \<times> (nat \<times> string \<times> 'v BinlogEvent list) list" where
  "processGroup ev wid m table acc =
     (case acc of (db, s, tr) \<Rightarrow>
        (case m table of
           None \<Rightarrow> (db, s, tr)
         | Some events \<Rightarrow>
             (case applyChanges (tx ev table) table events db of
                (Some err, db') \<Rightarrow> (db', s, tr)
              | (None, db') \<Rightarrow>
                  (db', updateState (sio ev table) (now ev) table (last events) s,
                   tr @ [(wid, table, events)]))))"

text \<open>
  \<open>order\<close> is a possible iteration order of the map when it lists every key once.
\<close>

definition iteration_order :: "string list \<Rightarrow> 'v BinlogEvent list \<Rightarrow> bool" where
  "iteration_order ord b \<longleftrightarrow> distinct ord \<and> set ord = set (map Table b)"

text \<open>
  \<^verbatim>\<open>processBatch\<close> of worker \<open>i\<close>. The result is \<open>None\<close> when \<open>order ev\<close> is not an
  iteration order of the map: such a run does not exist.
\<close>

definition processBatch ::
    "env \<Rightarrow> nat \<Rightarrow> ('v, 'db) WorkerPool \<Rightarrow> ('v, 'db) WorkerPool option" where
  "processBatch ev i p =
     (let w = workers p ! i in
      if length (batch w) = 0 then Some p
      else if \<not> iteration_order (order ev) (batch w) then None
      else
        (case foldl (\<lambda>acc table. processGroup ev (w_id w) (eventsByTable (batch w)) table acc)
                (targetDB p, wp_store p, applied p) (order ev) of
           (db, s, tr) \<Rightarrow>
             Some (p\<lparr>workers := (workers p)[i := w\<lparr>batch := []\<rparr>],
                     targetDB := db, wp_store := s, applied := tr\<rparr>)))"

text \<open>
  One turn of the \<^verbatim>\<open>select\<close> loop of \<^verbatim>\<open>Worker.run\<close>, for worker \<open>i\<close> and the case that
  fires. \<open>None\<close>: the case cannot fire in this state (the worker has returned, the
  channel is empty and open, the context is not cancelled).
\<close>

datatype wake = RecvEvent | TickerFired | CtxDone

definition worker_return :: "nat \<Rightarrow> ('v, 'db) WorkerPool \<Rightarrow> ('v, 'db) WorkerPool" where
  "worker_return i p = p\<lparr>workers := (workers p)[i := (workers p ! i)\<lparr>returned := True\<rparr>]\<rparr>"

definition run_step ::
    "env \<Rightarrow> nat \<Rightarrow> wake \<Rightarrow> ('v, 'db) WorkerPool \<Rightarrow> ('v, 'db) WorkerPool option" where
  "run_step ev i wk p =
     (if i \<ge> length (workers p) \<or> returned (workers p ! i) then None
      else
        (case wk of
           RecvEvent \<Rightarrow>
             (case buf (wp_eventChan p) of
                [] \<Rightarrow>
                  if closed (wp_eventChan p)
                  then map_option (worker_return i) (processBatch ev i p)
                  else None
              | event # rest \<Rightarrow>
                  (let w = workers p ! i;
                       p' = p\<lparr>wp_eventChan := (wp_eventChan p)\<lparr>buf := rest\<rparr>,
                              workers := (workers p)[i := w\<lparr>batch := batch w @ [event]\<rparr>]\<rparr>
                   in if int (length (batch w @ [event])) \<ge> batchSize p
                      then processBatch ev i p' else Some p'))
         | TickerFired \<Rightarrow>
             if length (batch (workers p ! i)) > 0 then processBatch ev i p else Some p
         | CtxDone \<Rightarrow>
             if wp_ctx_done p
             then map_option (worker_return i) (processBatch ev i p)
             else None))"

text \<open>A run of the pool: the turns the workers take, in the order they take them.\<close>

fun run_pool ::
    "(env \<times> nat \<times> wake) list \<Rightarrow> ('v, 'db) WorkerPool \<Rightarrow> ('v, 'db) WorkerPool option" where
  "run_pool [] p = Some p"
| "run_pool ((ev, i, wk) # rest) p =
     (case run_step ev i wk p of None \<Rightarrow> None | Some p' \<Rightarrow> run_pool rest p')"

section \<open>Configuration (config/config.go)\<close>

text \<open>The structs the modelled code reads; \<open>cfg\<close> holds the two sections it uses.\<close>

record DatabaseConnection =
  Host :: string
  Port :: int
  User :: string
  Password :: string
  Database :: string
  ReplicationUser :: string
  ReplicationPassword :: string

record TableConfig =
  Name :: string
  ConflictResolution :: string
  BatchSize :: int
  PrimaryKey :: string
  tc_TimestampColumn :: string

record SyncConfig =
  Mode :: string
  Tables :: "TableConfig list"
  Workers :: int
  Realtime :: bool
  BatchInsertSize :: int

record DatabasesConfig =
  Local :: DatabaseConnection
  Cloud :: DatabaseConnection

record Config =
  Databases :: DatabasesConfig
  Sync :: SyncConfig

section \<open>The binlog listener\<close>

text \<open>\<^verbatim>\<open>%d\<close> of a Go int.\<close>

fun decimal_nat :: "nat \<Rightarrow> string" where
  "decimal_nat n =
     (if n < 10 then [char_of (48 + n)]
      else decimal_nat (n div 10) @ [char_of (48 + n mod 10)])"

definition decimal :: "int \<Rightarrow> string" where
  "decimal i = (if i < 0 then CHR ''-'' # decimal_nat (nat (- i)) else decimal_nat (nat i))"

text \<open>
  The \<^verbatim>\<open>canal.Config\<close> that \<^verbatim>\<open>NewBinlogListener\<close> fills in: these fields and no other
  (the dump section is left at its empty execution path).
\<close>

record canal_Config =
  Addr :: string
  canal_User :: string
  canal_Password :: string
  Flavor :: string
  ServerID :: "32 word"
  Dump_ExecutionPath :: string
  IncludeTableRegex :: "string list"

record 'v BinlogListener =
  l_cfg :: DatabaseConnection
  canal :: canal_Config
  eventChan :: "'v BinlogEvent chan"
  l_ctx_done :: bool
  tables :: "string \<rightharpoonup> bool"

text \<open>
  \<open>newCanal\<close> is \<^verbatim>\<open>canal.NewCanal\<close> of the replication library: the error it returns for
  a configuration, if any.
\<close>

definition NewBinlogListener ::
    "(canal_Config \<Rightarrow> error option) \<Rightarrow> DatabaseConnection \<Rightarrow> TableConfig list
      \<Rightarrow> error + 'v BinlogListener" where
  "NewBinlogListener newCanal cf tbls =
     (let tableMap = foldl (\<lambda>m t. m(Name t \<mapsto> True)) Map.empty tbls;
          tableRegex =
            map (\<lambda>t. ''^'' @ Database cf @ [CHR 0x5C, CHR ''.''] @ Name t @ ''$'') tbls;
          c = \<lparr>Addr = Host cf @ '':'' @ decimal (Port cf),
               canal_User = ReplicationUser cf,
               canal_Password = ReplicationPassword cf,
               Flavor = ''mysql'',
               ServerID = 100,
               Dump_ExecutionPath = [],
               IncludeTableRegex = tableRegex\<rparr>
      in case newCanal c of
           Some err \<Rightarrow> Inl (ErrCanal ''failed to create canal'')
         | None \<Rightarrow>
             Inr \<lparr>l_cfg = cf, canal = c,
                  eventChan = \<lparr>buf = [], cap = 10000, closed = False\<rparr>,
                  l_ctx_done = False, tables = tableMap\<rparr>)"

text \<open>The \<^verbatim>\<open>canal.RowsEvent\<close> fields that \<^verbatim>\<open>OnRow\<close> reads.\<close>

record 'v RowsEvent =
  Table_Schema :: string
  Table_Name :: string
  Action :: string
  re_Rows :: "'v list list"
  Header_Timestamp :: "32 word"

text \<open>
  How a call of \<^verbatim>\<open>OnRow\<close> ends: it returns an error or nil and leaves the listener in a
  state; or it stays suspended in the \<^verbatim>\<open>select\<close> (neither case is ready); or the send
  case fires on a closed channel, which panics.
\<close>

datatype 'l outcome = Returns "error option" 'l | Suspended | Panics

text \<open>
  \<open>pick_send\<close> is the choice Go makes when both cases of the \<^verbatim>\<open>select\<close> are ready;
  \<open>pos\<close> is \<^verbatim>\<open>canal.SyncedPosition()\<close>. A send is ready when the buffer has room or the
  channel is closed.
\<close>

definition OnRow ::
    "bool \<Rightarrow> string \<times> 32 word \<Rightarrow> 'v BinlogListener \<Rightarrow> 'v RowsEvent
      \<Rightarrow> 'v BinlogListener outcome" where
  "OnRow pick_send pos l e =
     (if tables l (Table_Name e) = None then Returns None l
      else
        (case (if Action e = ''insert'' then Some Insert
               else if Action e = ''update'' then Some Update
               else if Action e = ''delete'' then Some Delete
               else None) of
           None \<Rightarrow> Returns None l
         | Some eventType \<Rightarrow>
             (let binlogEvent =
                    \<lparr>Type = eventType, Schema = Table_Schema e, Table = Table_Name e,
                     Rows = re_Rows e, Timestamp = Header_Timestamp e,
                     ev_BinlogFile = fst pos, BinlogPos = snd pos\<rparr>;
                  ch = eventChan l;
                  send_ready = (closed ch \<or> length (buf ch) < cap ch);
                  done_ready = l_ctx_done l;
                  send = (if closed ch then Panics
                          else Returns None (l\<lparr>eventChan := ch\<lparr>buf := buf ch @ [binlogEvent]\<rparr>\<rparr>));
                  cancel = Returns (Some ErrContextCanceled) l
              in if send_ready \<and> done_ready then (if pick_send then send else cancel)
                 else if send_ready then send
                 else if done_ready then cancel
                 else Suspended)))"

section \<open>The conflict engine (sync/conflict.go)\<close>

text \<open>
  A row image \<^verbatim>\<open>map[string]interface{}\<close> is \<open>None\<close> for the nil map and otherwise the
  entries of the map, in some order and with distinct keys; \<open>'v\<close> is the type of the
  column values. What the standard library does is a parameter: \<open>sha256_Sum256\<close> is
  \<^verbatim>\<open>crypto/sha256\<close>, \<open>json_string\<close> and \<open>json_value\<close> are how \<^verbatim>\<open>encoding/json\<close> writes a
  key and a value (\<open>None\<close>: the value cannot be encoded and \<^verbatim>\<open>Marshal\<close> returns an
  error), \<open>json_Unmarshal\<close> is the map that \<^verbatim>\<open>json.Unmarshal\<close> leaves in a nil map
  variable (nil when the bytes are not a JSON object).
\<close>

type_synonym 'v image = "(string \<times> 'v) list option"

record 'v stdlib =
  sha256_Sum256 :: "string \<Rightarrow> string"
  json_string :: "string \<Rightarrow> string"
  json_value :: "'v \<Rightarrow> string option"
  json_Unmarshal :: "string option \<Rightarrow> 'v image"

text \<open>The entries of a map in the order \<^verbatim>\<open>encoding/json\<close> writes them: sorted by key.\<close>

definition canonical :: "(string \<times> 'v) list \<Rightarrow> (string \<times> 'v) list" where
  "canonical m = sort_key fst m"

fun join :: "string \<Rightarrow> string list \<Rightarrow> string" where
  "join sep [] = []"
| "join sep [x] = x"
| "join sep (x # y # ys) = x @ sep @ join sep (y # ys)"

fun encode_entries :: "'v stdlib \<Rightarrow> (string \<times> 'v) list \<Rightarrow> string list option" where
  "encode_entries lib [] = Some []"
| "encode_entries lib ((k, v) # kvs) =
     (case json_value lib v of
        None \<Rightarrow> None
      | Some b \<Rightarrow>
          (case encode_entries lib kvs of
             None \<Rightarrow> None
           | Some bs \<Rightarrow> Some ((json_string lib k @ '':'' @ b) # bs)))"

definition json_Marshal :: "'v stdlib \<Rightarrow> 'v image \<Rightarrow> string option" where
  "json_Marshal lib data =
     (case data of
        None \<Rightarrow> Some ''null''
      | Some m \<Rightarrow>
          (case encode_entries lib (canonical m) of
             None \<Rightarrow> None
           | Some bs \<Rightarrow> Some (''{'' @ join '','' bs @ ''}'')))"

text \<open>\<^verbatim>\<open>fmt.Sprintf("%x", sum)\<close>: two lower-case hexadecimal digits per byte.\<close>

definition hex_digit :: "nat \<Rightarrow> char" where
  "hex_digit n = (if n < 10 then char_of (48 + n) else char_of (87 + n))"

definition hex :: "string \<Rightarrow> string" where
  "hex bs = concat (map (\<lambda>c. [hex_digit (of_char c div 16), hex_digit (of_char c mod 16)]) bs)"

text \<open>\<^verbatim>\<open>bytes, _ := json.Marshal(data)\<close>: on an error the bytes are nil.\<close>

definition calculateHash :: "'v stdlib \<Rightarrow> 'v image \<Rightarrow> string" where
  "calculateHash lib data =
     hex (sha256_Sum256 lib (case json_Marshal lib data of None \<Rightarrow> [] | Some b \<Rightarrow> b))"

text \<open>\<open>uuid\<close> is \<^verbatim>\<open>uuid.New().String()\<close> and \<open>nw\<close> is \<^verbatim>\<open>time.Now()\<close>.\<close>

definition DetectConflict ::
    "'v stdlib \<Rightarrow> string \<Rightarrow> int \<Rightarrow> string \<Rightarrow> string \<Rightarrow> 'v image \<Rightarrow> 'v image
      \<Rightarrow> bool \<times> Conflict option" where
  "DetectConflict lib uuid nw table pk localData cloudData =
     (let localHash = calculateHash lib localData;
          cloudHash = calculateHash lib cloudData
      in if localHash = cloudHash then (False, None)
         else (True, Some
           \<lparr>ID = uuid, TableName = table, PrimaryKeyValue = pk,
            LocalData = json_Marshal lib localData,
            CloudData = json_Marshal lib cloudData,
            ConflictType = ''data_mismatch'', DetectedAt = nw, Resolved = False,
            ResolutionStrategy = None, ResolvedAt = None, ResolvedData = None\<rparr>))"

definition RecordConflict ::
    "error option \<Rightarrow> Conflict \<Rightarrow> MySQLStore \<Rightarrow> error option \<times> MySQLStore" where
  "RecordConflict io conflict s = CreateConflict io conflict s"

record LastWriteWinsStrategy =
  TimestampColumn :: string

text \<open>
  \<^verbatim>\<open>LastWriteWinsStrategy.Resolve\<close>: both images are parsed (the errors of
  \<^verbatim>\<open>json.Unmarshal\<close> are dropped) and the local one is returned with a nil error.
\<close>

definition Resolve ::
    "'v stdlib \<Rightarrow> LastWriteWinsStrategy \<Rightarrow> Conflict \<Rightarrow> 'v image \<times> error option" where
  "Resolve lib strat conflict =
     (let local = json_Unmarshal lib (LocalData conflict);
          cloud = json_Unmarshal lib (CloudData conflict)
      in (local, None))"

section \<open>The sync manager (sync/manager.go)\<close>

text \<open>
  \<^verbatim>\<open>NewWorkerPool\<close>: \<open>cfg.Workers\<close> workers with empty batches, the channel of the
  listener, the target database and the store. (\<^verbatim>\<open>make\<close> panics on a negative length;
  the model is for a worker count that is not negative.)
\<close>

definition NewWorkerPool ::
    "SyncConfig \<Rightarrow> 'db \<Rightarrow> MySQLStore \<Rightarrow> 'v BinlogEvent chan \<Rightarrow> ('v, 'db) WorkerPool" where
  "NewWorkerPool cf target st ch =
     \<lparr>workers = map (\<lambda>i. \<lparr>w_id = i, batch = [], returned = False\<rparr>) [0 ..< nat (Workers cf)],
      wp_eventChan = ch, targetDB = target, wp_store = st, wp_ctx_done = False,
      batchSize = BatchInsertSize cf, applied = []\<rparr>"

record ('v, 'db) Manager =
  cfg :: Config
  cloudDB :: 'db
  store :: MySQLStore
  binlogListener :: "'v BinlogListener option"
  workerPool :: "('v, 'db) WorkerPool option"
  status :: string

text \<open>
  \<^verbatim>\<open>Manager.Start\<close>. Starting the pool and the listener spawns their goroutines and, for
  the listener, always returns nil; the manager afterwards holds both and is running.
\<close>

definition Start ::
    "(canal_Config \<Rightarrow> error option) \<Rightarrow> ('v, 'db) Manager \<Rightarrow> error option \<times> ('v, 'db) Manager" where
  "Start newCanal m =
     (if status m = ''running'' then (Some ErrAlreadyRunning, m)
      else
        (case NewBinlogListener newCanal (Local (Databases (cfg m))) (Tables (Sync (cfg m))) of
           Inl err \<Rightarrow> (Some err, m)
         | Inr listener \<Rightarrow>
             (None, m\<lparr>binlogListener := Some listener,
                      workerPool := Some (NewWorkerPool (Sync (cfg m)) (cloudDB m) (store m)
                                            (eventChan listener)),
                      status := ''running''\<rparr>)))"

section \<open>Notions used in the statements\<close>

text \<open>The transaction of a group fails when \<^verbatim>\<open>BeginTx\<close> or \<^verbatim>\<open>Commit\<close> returns an error.\<close>

definition tx_fails :: "tx_driver \<Rightarrow> bool" where
  "tx_fails drv \<longleftrightarrow> begin_err drv \<noteq> None \<or> commit_err drv \<noteq> None"

text \<open>The rows of \<open>sync_state\<close> stored for one table.\<close>

definition rows_of :: "MySQLStore \<Rightarrow> string \<Rightarrow> SyncState list" where
  "rows_of s t = filter (\<lambda>r. ss_TableName r = t) (sync_state s)"

text \<open>The position of an event in the source log, ordered by file and then offset.\<close>

definition position :: "'v BinlogEvent \<Rightarrow> string \<times> 32 word" where
  "position e = (ev_BinlogFile e, BinlogPos e)"

text \<open>The keys of the map, in iteration order, whose transaction commits.\<close>

definition committed_tables ::
    "env \<Rightarrow> (string \<rightharpoonup> 'v BinlogEvent list) \<Rightarrow> string list \<Rightarrow> string list" where
  "committed_tables ev m ord = filter (\<lambda>t. m t \<noteq> None \<and> \<not> tx_fails (tx ev t)) ord"

text \<open>The events applied for a table so far, in the order of the trace.\<close>

definition applied_for :: "string \<Rightarrow> ('v, 'db) WorkerPool \<Rightarrow> 'v BinlogEvent list" where
  "applied_for t p = concat (map (\<lambda>g. snd (snd g)) (filter (\<lambda>g. fst (snd g) = t) (applied p)))"

text \<open>The workers whose batch holds an event of the table.\<close>

definition holders :: "string \<Rightarrow> ('v, 'db) WorkerPool \<Rightarrow> 'v Worker list" where
  "holders t p = filter (\<lambda>w. \<exists>e \<in> set (batch w). Table e = t) (workers p)"

text \<open>
  With a single worker: the events of a table that are still in its batch or in the
  channel, oldest first.
\<close>

definition pending :: "string \<Rightarrow> ('v, 'db) WorkerPool \<Rightarrow> 'v BinlogEvent list" where
  "pending t p =
     filter (\<lambda>e. Table e = t) (batch (workers p ! 0)) @
     filter (\<lambda>e. Table e = t) (buf (wp_eventChan p))"

section \<open>Example values\<close>

definition conflict_a :: Conflict where
  "conflict_a =
     \<lparr>ID = ''a'', TableName = ''users'', PrimaryKeyValue = ''1'', LocalData = Some ''{}'',
      CloudData = Some ''{}'', ConflictType = ''data_mismatch'', DetectedAt = 0,
      Resolved = False, ResolutionStrategy = None, ResolvedAt = None, ResolvedData = None\<rparr>"

definition empty_store :: MySQLStore where
  "empty_store = \<lparr>sync_state = [], conflicts = []\<rparr>"

definition ev_users :: "32 word \<Rightarrow> nat BinlogEvent" where
  "ev_users pos =
     \<lparr>Type = Insert, Schema = ''app'', Table = ''users'', Rows = [[1]],
      Timestamp = 1700000000, ev_BinlogFile = ''mysql-bin.000001'', BinlogPos = pos\<rparr>"

definition driver_ok :: tx_driver where
  "driver_ok = \<lparr>begin_err = None, rollback_err = None, commit_err = None\<rparr>"

definition env_ok :: env where
  "env_ok = \<lparr>tx = (\<lambda>t. driver_ok), sio = (\<lambda>t. None), now = 1000, order = [''users'']\<rparr>"

definition env_commit_fails :: env where
  "env_commit_fails =
     env_ok\<lparr>tx := \<lambda>t. driver_ok\<lparr>commit_err := Some (ErrDriver ''connection lost'')\<rparr>\<rparr>"

definition state_users :: SyncState where
  "state_users =
     \<lparr>ss_TableName = ''users'', LastSyncTime = Some 1600000000,
      BinlogFile = Some ''mysql-bin.000001'', BinlogPosition = Some 4, RowsSynced = 5,
      SyncDirection = [], ss_Status = ''running'', ss_ErrorMessage = None, UpdatedAt = 900\<rparr>"

definition pool_one :: "(nat, unit) WorkerPool" where
  "pool_one =
     \<lparr>workers = [\<lparr>w_id = 0, batch = [ev_users 100], returned = False\<rparr>],
      wp_eventChan = \<lparr>buf = [], cap = 10000, closed = False\<rparr>,
      targetDB = (),
      wp_store = \<lparr>sync_state = [state_users], conflicts = []\<rparr>,
      wp_ctx_done = False, batchSize = 1000, applied = []\<rparr>"

definition pool_two :: "(nat, unit) WorkerPool" where
  "pool_two =
     \<lparr>workers = [\<lparr>w_id = 0, batch = [], returned = False\<rparr>,
                 \<lparr>w_id = 1, batch = [], returned = False\<rparr>],
      wp_eventChan = \<lparr>buf = [ev_users 100, ev_users 200], cap = 10000, closed = False\<rparr>,
      targetDB = (),
      wp_store = \<lparr>sync_state = [], conflicts = []\<rparr>,
      wp_ctx_done = False, batchSize = 1000, applied = []\<rparr>"

definition pool_single :: "(nat, unit) WorkerPool" where
  "pool_single = pool_two\<lparr>workers := [\<lparr>w_id = 0, batch = [], returned = False\<rparr>]\<rparr>"

definition users_cfg :: DatabaseConnection where
  "users_cfg = \<lparr>Host = ''db.local'', Port = 3306, User = ''sync'', Password = ''pw'',
     Database = ''app'', ReplicationUser = ''repl'', ReplicationPassword = ''rpw''\<rparr>"

definition users_table :: TableConfig where
  "users_table = \<lparr>Name = ''users'', ConflictResolution = ''last_write_wins'', BatchSize = 100,
     PrimaryKey = ''id'', tc_TimestampColumn = ''updated_at''\<rparr>"

definition insert_users :: "nat RowsEvent" where
  "insert_users = \<lparr>Table_Schema = ''app'', Table_Name = ''users'', Action = ''insert'',
     re_Rows = [[1]], Header_Timestamp = 1700000000\<rparr>"

text \<open>
  A stand-in for the standard library in the examples: keys in double quotes, values
  (natural numbers) in decimal, and the identity where a hash function is not the
  point; the statements that are about the hash take it as a variable instead.
\<close>

definition test_lib :: "nat stdlib" where
  "test_lib =
     \<lparr>sha256_Sum256 = (\<lambda>b. b),
      json_string = (\<lambda>k. [CHR 0x22] @ k @ [CHR 0x22]),
      json_value = (\<lambda>v. Some (decimal (int v))),
      json_Unmarshal = (\<lambda>b. None)\<rparr>"

definition image_local :: "nat image" where
  "image_local = Some [(''updated_at'', 5), (''id'', 1)]"

definition image_cloud :: "nat image" where
  "image_cloud = Some [(''id'', 1), (''updated_at'', 9)]"

text \<open>The JSON encodings of the two images: \<open>{"id":1,"updated_at":5}\<close> and \<open>{"id":1,"updated_at":9}\<close>.\<close>

definition bytes_local :: string where
  "bytes_local =
     ''{'' @ [CHR 0x22] @ ''id'' @ [CHR 0x22] @ '':1,'' @
     [CHR 0x22] @ ''updated_at'' @ [CHR 0x22] @ '':5}''"

definition bytes_cloud :: string where
  "bytes_cloud =
     ''{'' @ [CHR 0x22] @ ''id'' @ [CHR 0x22] @ '':1,'' @
     [CHR 0x22] @ ''updated_at'' @ [CHR 0x22] @ '':9}''"

definition manager_users :: "(nat, unit) Manager" where
  "manager_users =
     \<lparr>cfg = \<lparr>Databases = \<lparr>Local = users_cfg, Cloud = users_cfg\<lparr>Host := ''db.cloud''\<rparr>\<rparr>,
             Sync = \<lparr>Mode = ''local_to_cloud'', Tables = [users_table], Workers = 2,
                     Realtime = True, BatchInsertSize = 1000\<rparr>\<rparr>,
      cloudDB = (),
      store = \<lparr>sync_state = [state_users], conflicts = []\<rparr>,
      binlogListener = None, workerPool = None, status = ''idle''\<rparr>"

section \<open>The state store: conflicts\<close>

lemma ResolveConflict_map_absent:
  assumes "ident \<notin> ID ` set rows"
  shows "map (\<lambda>r. if ID r = ident
                   then r\<lparr>Resolved := True, ResolutionStrategy := Some strategy,
                          ResolvedData := resolvedData, ResolvedAt := Some nw\<rparr>
                   else r) rows = rows"
  using assms by (intro map_idI) auto

text \<open>
  C10. \<^verbatim>\<open>ResolveConflict\<close> for an id that no row of \<open>conflicts\<close> has: when the statement
  runs it returns nil, and whether it runs or not the store is left as it was.
\<close>

theorem ResolveConflict_absent_id:
  assumes "ident \<notin> ID ` set (conflicts s)"
  shows "ResolveConflict None nw ident strategy resolvedData s = (None, s)
       \<and> snd (ResolveConflict io nw ident strategy resolvedData s) = s"
  using ResolveConflict_map_absent [OF assms]
  by (cases io) (simp_all add: ResolveConflict_def)

theorem ResolveConflict_absent_id_witness:
  "''b'' \<notin> ID ` set (conflicts \<lparr>sync_state = [], conflicts = [conflict_a]\<rparr>)
   \<and> ResolveConflict None 5 ''b'' ''manual'' (Some ''{}'')
         \<lparr>sync_state = [], conflicts = [conflict_a]\<rparr>
       = (None, \<lparr>sync_state = [], conflicts = [conflict_a]\<rparr>)"
  using ResolveConflict_absent_id
    [of "''b''" "\<lparr>sync_state = [], conflicts = [conflict_a]\<rparr>" 5 "''manual''" "Some ''{}''" None]
  by (simp add: conflict_a_def)

text \<open>
  C5, as stated, fails: after a conflict for \<open>(users, 1)\<close> is recorded and is unresolved,
  \<^verbatim>\<open>CreateConflict\<close> of a second conflict for \<open>(users, 1)\<close> under another id returns nil,
  and the store then holds two unresolved conflicts for \<open>(users, 1)\<close>.
\<close>

theorem CreateConflict_second_unresolved:
  "length (unresolved_for (snd (CreateConflict None conflict_a empty_store)) ''users'' ''1'') = 1
   \<and> fst (CreateConflict None (conflict_a\<lparr>ID := ''b''\<rparr>)
            (snd (CreateConflict None conflict_a empty_store))) = None
   \<and> length (unresolved_for
        (snd (CreateConflict None (conflict_a\<lparr>ID := ''b''\<rparr>)
               (snd (CreateConflict None conflict_a empty_store)))) ''users'' ''1'') = 2"
  by (simp add: CreateConflict_def conflict_a_def empty_store_def unresolved_for_def)

text \<open>
  C5, amended: the rows of \<open>conflicts\<close> are unique by id. \<^verbatim>\<open>CreateConflict\<close> keeps the ids
  distinct; when the statement runs it fails exactly when a row with the conflict's id
  exists; when it returns nil it has appended one row (the conflict, its three
  resolution columns NULL) and changed no other, whatever conflicts the store holds
  for the same table and primary key; when it returns an error the store is unchanged.
\<close>

theorem CreateConflict_unique_by_id:
  assumes "distinct (map ID (conflicts s))"
  shows "distinct (map ID (conflicts (snd (CreateConflict io c s))))
       \<and> (fst (CreateConflict None c s) = None \<longleftrightarrow> ID c \<notin> ID ` set (conflicts s))
       \<and> (fst (CreateConflict io c s) = None \<longrightarrow>
            conflicts (snd (CreateConflict io c s)) = conflicts s @
              [c\<lparr>ResolutionStrategy := None, ResolvedAt := None, ResolvedData := None\<rparr>])
       \<and> (fst (CreateConflict io c s) \<noteq> None \<longrightarrow> snd (CreateConflict io c s) = s)"
  using assms by (cases io) (auto simp: CreateConflict_def intro: rev_image_eqI)

theorem CreateConflict_unique_by_id_witness:
  "distinct (map ID (conflicts \<lparr>sync_state = [], conflicts = [conflict_a]\<rparr>))
   \<and> fst (CreateConflict None conflict_a \<lparr>sync_state = [], conflicts = [conflict_a]\<rparr>) \<noteq> None
   \<and> fst (CreateConflict None (conflict_a\<lparr>ID := ''b''\<rparr>)
            \<lparr>sync_state = [], conflicts = [conflict_a]\<rparr>) = None
   \<and> conflicts (snd (CreateConflict None (conflict_a\<lparr>ID := ''b''\<rparr>)
                       \<lparr>sync_state = [], conflicts = [conflict_a]\<rparr>))
       = [conflict_a, conflict_a\<lparr>ID := ''b''\<rparr>]"
proof -
  have d: "distinct (map ID (conflicts \<lparr>sync_state = [], conflicts = [conflict_a]\<rparr>))"
    by simp
  show ?thesis
    using d
      CreateConflict_unique_by_id [OF d, of None conflict_a]
      CreateConflict_unique_by_id [OF d, of None "conflict_a\<lparr>ID := ''b''\<rparr>"]
    by (simp add: conflict_a_def)
qed

section \<open>The worker pool: one flush\<close>

lemma ExecTx_error_unchanged:
  "fst (ExecTx drv fn db) \<noteq> None \<Longrightarrow> snd (ExecTx drv fn db) = db"
  by (auto simp: ExecTx_def split: option.splits sum.splits)

lemma foldl_const [simp]: "foldl (\<lambda>t' e. t') t es = t"
  by (induction es) auto

lemma applyChanges_eq:
  "applyChanges drv table events db =
     (case begin_err drv of Some err \<Rightarrow> (Some err, db)
      | None \<Rightarrow> (case commit_err drv of Some err \<Rightarrow> (Some err, db) | None \<Rightarrow> (None, db)))"
  by (simp add: applyChanges_def ExecTx_def split: option.splits)

lemma applyChanges_fails_iff:
  "fst (applyChanges drv table events db) \<noteq> None \<longleftrightarrow> tx_fails drv"
  by (auto simp: applyChanges_eq tx_fails_def split: option.splits)

lemma applyChanges_db: "snd (applyChanges drv table events db) = db"
  by (simp add: applyChanges_eq split: option.splits)

lemma processGroup_failed:
  "tx_fails (tx ev t) \<Longrightarrow> processGroup ev wid m t (db, s, tr) = (db, s, tr)"
  by (auto simp: processGroup_def applyChanges_eq tx_fails_def split: option.splits)

lemma filter_map_other:
  assumes "\<And>x. P (f x) = P x" "\<And>x. P x \<Longrightarrow> f x = x"
  shows "filter P (map f xs) = filter P xs"
  using assms by (induction xs) auto

lemma UpdateSyncState_other:
  "ss_TableName state \<noteq> t \<Longrightarrow> rows_of (snd (UpdateSyncState io nw state s)) t = rows_of s t"
  by (cases io) (auto simp: UpdateSyncState_def rows_of_def Let_def intro!: filter_map_other)

lemma updateState_other:
  "table \<noteq> t \<Longrightarrow> rows_of (updateState io nw table e s) t = rows_of s t"
  by (simp add: updateState_def UpdateSyncState_other)

lemma find_filter: "find P xs = (case filter P xs of [] \<Rightarrow> None | r # _ \<Rightarrow> Some r)"
  by (induction xs) auto

lemma GetSyncState_rows: "GetSyncState s t = (case rows_of s t of [] \<Rightarrow> None | r # _ \<Rightarrow> Some r)"
  by (simp add: GetSyncState_def rows_of_def find_filter)

lemma eventsByTable_eq:
  "eventsByTable b t =
     (if t \<in> Table ` set b then Some (filter (\<lambda>e. Table e = t) b) else None)"
proof (induction b rule: rev_induct)
  case Nil
  then show ?case by (simp add: eventsByTable_def)
next
  case (snoc e b)
  have step: "eventsByTable (b @ [e]) =
      (eventsByTable b)(Table e \<mapsto>
         (case eventsByTable b (Table e) of None \<Rightarrow> [] | Some es \<Rightarrow> es) @ [e])"
    by (simp add: eventsByTable_def)
  show ?case
    unfolding step using snoc.IH
    by (auto simp: filter_empty_conv image_iff eq_commute [of "[]"]) metis
qed

lemma processGroups_eq:
  "foldl (\<lambda>acc table. processGroup ev wid m table acc) (db, s, tr) ord =
     (db,
      foldl (\<lambda>s t. updateState (sio ev t) (now ev) t (last (the (m t))) s) s
        (committed_tables ev m ord),
      tr @ map (\<lambda>t. (wid, t, the (m t))) (committed_tables ev m ord))"
proof (induction ord arbitrary: s tr)
  case Nil
  then show ?case by (simp add: committed_tables_def)
next
  case (Cons a ord)
  show ?case
  proof (cases "m a \<noteq> None \<and> \<not> tx_fails (tx ev a)")
    case True
    then obtain es where es: "m a = Some es" by auto
    have "processGroup ev wid m a (db, s, tr) =
        (db, updateState (sio ev a) (now ev) a (last es) s, tr @ [(wid, a, es)])"
      using True es
      by (auto simp: processGroup_def applyChanges_eq tx_fails_def split: option.splits)
    then show ?thesis using True es Cons.IH by (simp add: committed_tables_def)
  next
    case False
    have "processGroup ev wid m a (db, s, tr) = (db, s, tr)"
    proof (cases "m a")
      case None
      then show ?thesis by (simp add: processGroup_def)
    next
      case (Some es)
      then have "tx_fails (tx ev a)" using False by simp
      then show ?thesis by (rule processGroup_failed)
    qed
    then show ?thesis using False Cons.IH by (simp add: committed_tables_def)
  qed
qed

lemma updateState_refused: "updateState (Some err) nw table e s = s"
  by (simp add: updateState_def UpdateSyncState_def)

lemma updateStates_unchanged:
  "t \<notin> set ts \<or> io t \<noteq> None \<Longrightarrow>
   rows_of (foldl (\<lambda>s t. updateState (io t) nw t (f t) s) s ts) t = rows_of s t"
proof (induction ts arbitrary: s)
  case Nil
  then show ?case by simp
next
  case (Cons a ts)
  have "rows_of (updateState (io a) nw a (f a) s) t = rows_of s t"
  proof (cases "a = t")
    case True
    then show ?thesis using Cons.prems by (auto simp: updateState_refused)
  next
    case False
    then show ?thesis by (simp add: updateState_other)
  qed
  then show ?case using Cons by auto
qed

lemma UpdateSyncState_get:
  "GetSyncState (snd (UpdateSyncState None nw state s)) (ss_TableName state)
     = Some (state\<lparr>UpdatedAt := nw\<rparr>)"
proof -
  have a: "find (\<lambda>r. ss_TableName r = n) (map (\<lambda>r. if ss_TableName r = n then row else r) xs) = Some row"
    if "\<exists>r\<in>set xs. ss_TableName r = n" "ss_TableName row = n" for xs n row
    using that by (induction xs) auto
  have b: "find (\<lambda>r. ss_TableName r = n) (xs @ [row]) = Some row"
    if "\<not> (\<exists>r\<in>set xs. ss_TableName r = n)" "ss_TableName row = n" for xs n row
    using that by (induction xs) auto
  show ?thesis
    by (auto simp: UpdateSyncState_def GetSyncState_def Let_def a b)
qed

lemma sorted_le_last:
  "sorted (map f ys) \<Longrightarrow> y \<in> set ys \<Longrightarrow> f y \<le> f (last ys)"
  by (induction ys) auto

lemma sorted_last_max:
  assumes "sorted (map f xs)" "x \<in> set xs" "P x"
  shows "f x \<le> f (last (filter P xs))"
  using sorted_le_last [of f "filter P xs" x] sorted_filter [OF assms(1), of P] assms(2,3)
  by simp

lemma processBatch_store:
  assumes "processBatch ev i p = Some p'" "batch (workers p ! i) \<noteq> []"
  shows "iteration_order (order ev) (batch (workers p ! i))
       \<and> targetDB p' = targetDB p
       \<and> wp_store p' =
           foldl (\<lambda>s t. updateState (sio ev t) (now ev) t
                          (last (the (eventsByTable (batch (workers p ! i)) t))) s)
             (wp_store p)
             (committed_tables ev (eventsByTable (batch (workers p ! i))) (order ev))
       \<and> applied p' = applied p @
           map (\<lambda>t. (w_id (workers p ! i), t, the (eventsByTable (batch (workers p ! i)) t)))
             (committed_tables ev (eventsByTable (batch (workers p ! i))) (order ev))
       \<and> workers p' = (workers p)[i := (workers p ! i)\<lparr>batch := []\<rparr>]
       \<and> wp_eventChan p' = wp_eventChan p"
  using assms
  by (auto simp: processBatch_def Let_def processGroups_eq split: if_splits)

lemma updateStates_get:
  assumes "t \<in> set ts" "distinct ts" "io t = None"
  shows "GetSyncState (foldl (\<lambda>s t. updateState (io t) nw t (f t) s) s ts) t =
     Some \<lparr>ss_TableName = t,
        LastSyncTime = Some (uint (Timestamp (f t))),
        BinlogFile = Some (ev_BinlogFile (f t)),
        BinlogPosition = Some (ucast (BinlogPos (f t))),
        RowsSynced = 0,
        SyncDirection = [],
        ss_Status = ''running'',
        ss_ErrorMessage = None,
        UpdatedAt = nw\<rparr>"
proof -
  obtain xs ys where sp: "ts = xs @ t # ys" "t \<notin> set ys"
    using assms(1,2) by (metis distinct.simps(2) distinct_append split_list)
  let ?s1 = "foldl (\<lambda>s t. updateState (io t) nw t (f t) s) s xs"
  let ?s2 = "updateState (io t) nw t (f t) ?s1"
  have "GetSyncState ?s2 t = Some \<lparr>ss_TableName = t,
        LastSyncTime = Some (uint (Timestamp (f t))),
        BinlogFile = Some (ev_BinlogFile (f t)),
        BinlogPosition = Some (ucast (BinlogPos (f t))),
        RowsSynced = 0,
        SyncDirection = [],
        ss_Status = ''running'',
        ss_ErrorMessage = None,
        UpdatedAt = nw\<rparr>"
    using UpdateSyncState_get [of nw "\<lparr>ss_TableName = t,
        LastSyncTime = Some (uint (Timestamp (f t))),
        BinlogFile = Some (ev_BinlogFile (f t)),
        BinlogPosition = Some (ucast (BinlogPos (f t))),
        RowsSynced = 0,
        SyncDirection = [],
        ss_Status = ''running'',
        ss_ErrorMessage = None,
        UpdatedAt = 0\<rparr>" ?s1] assms(3)
    by (simp add: updateState_def)
  moreover have "rows_of (foldl (\<lambda>s t. updateState (io t) nw t (f t) s) ?s2 ys) t = rows_of ?s2 t"
    using sp(2) by (intro updateStates_unchanged) simp
  ultimately show ?thesis
    using sp(1) by (simp add: GetSyncState_rows)
qed

lemma pool_one_flush:
  "processBatch env_ok 0 pool_one =
     Some (pool_one\<lparr>workers := [\<lparr>w_id = 0, batch = [], returned = False\<rparr>],
        wp_store := \<lparr>sync_state = [\<lparr>ss_TableName = ''users'', LastSyncTime = Some 1700000000,
      BinlogFile = Some ''mysql-bin.000001'', BinlogPosition = Some 100, RowsSynced = 0,
      SyncDirection = [], ss_Status = ''running'', ss_ErrorMessage = None, UpdatedAt = 1000\<rparr>], conflicts = []\<rparr>,
        applied := [(0, ''users'', [ev_users 100])]\<rparr>)"
  by (simp add: processBatch_def pool_one_def env_ok_def iteration_order_def ev_users_def
      eventsByTable_def processGroup_def applyChanges_def ExecTx_def driver_ok_def
      updateState_def UpdateSyncState_def state_users_def)

text \<open>
  C4. When the transaction of the group of table \<open>t\<close> fails: \<^verbatim>\<open>applyChanges\<close> returns an
  error and the destination is as before (for any callback, a failed \<^verbatim>\<open>ExecTx\<close> leaves
  the database as it was); the round of \<^verbatim>\<open>processBatch\<close> for \<open>t\<close> changes nothing, so no
  state is written for the group; and after the whole \<^verbatim>\<open>processBatch\<close> the rows stored
  for \<open>t\<close>, and what \<^verbatim>\<open>GetSyncState\<close> returns for \<open>t\<close>, are what they were before.
\<close>

theorem failed_group_no_state_write:
  assumes "tx_fails (tx ev t)"
  shows "fst (applyChanges (tx ev t) t events db) \<noteq> None
       \<and> snd (applyChanges (tx ev t) t events db) = db
       \<and> (fst (ExecTx (tx ev t) fn db) \<noteq> None \<longrightarrow> snd (ExecTx (tx ev t) fn db) = db)
       \<and> processGroup ev wid m t (db, s, tr) = (db, s, tr)
       \<and> (processBatch ev i p = Some p' \<longrightarrow>
            rows_of (wp_store p') t = rows_of (wp_store p) t
          \<and> GetSyncState (wp_store p') t = GetSyncState (wp_store p) t)"
proof -
  have "rows_of (wp_store p') t = rows_of (wp_store p) t" if P: "processBatch ev i p = Some p'"
  proof (cases "batch (workers p ! i) = []")
    case True
    then show ?thesis using P by (simp add: processBatch_def Let_def)
  next
    case False
    have "t \<notin> set (committed_tables ev (eventsByTable (batch (workers p ! i))) (order ev))"
      using assms by (simp add: committed_tables_def)
    then show ?thesis
      using processBatch_store [OF P False] by (simp add: updateStates_unchanged)
  qed
  then show ?thesis
    using assms applyChanges_fails_iff [of "tx ev t" t events db]
      processGroup_failed [OF assms] ExecTx_error_unchanged [of "tx ev t" fn db]
    by (simp add: applyChanges_db GetSyncState_rows)
qed

theorem failed_group_no_state_write_witness:
  "tx_fails (tx env_commit_fails ''users'')
   \<and> (case processBatch env_commit_fails 0 pool_one of
        None \<Rightarrow> False
      | Some p' \<Rightarrow>
          GetSyncState (wp_store p') ''users'' = Some state_users \<and> applied p' = []
        \<and> batch (workers p' ! 0) = [])"
proof -
  have F: "tx_fails (tx env_commit_fails ''users'')"
    by (simp add: tx_fails_def env_commit_fails_def env_ok_def driver_ok_def)
  have P: "processBatch env_commit_fails 0 pool_one =
      Some (pool_one\<lparr>workers := [\<lparr>w_id = 0, batch = [], returned = False\<rparr>]\<rparr>)"
    by (simp add: processBatch_def pool_one_def env_ok_def env_commit_fails_def
        iteration_order_def ev_users_def eventsByTable_def processGroup_def applyChanges_def
        ExecTx_def driver_ok_def)
  have G: "GetSyncState (wp_store pool_one) ''users'' = Some state_users"
    by (simp add: GetSyncState_def pool_one_def state_users_def)
  show ?thesis
    using F G
      failed_group_no_state_write [OF F, of "[]" "()" "\<lambda>d. Inr d" 0 Map.empty
        "\<lparr>sync_state = [], conflicts = []\<rparr>" "[]" 0 pool_one
        "pool_one\<lparr>workers := [\<lparr>w_id = 0, batch = [], returned = False\<rparr>]\<rparr>"]
    by (simp add: P) (simp add: pool_one_def)
qed

text \<open>
  C3, as stated, fails. First run: the store holds \<open>rows_synced = 5\<close> for \<open>users\<close>, the
  batch is one insert of one row and is applied, and afterwards \<open>rows_synced\<close> is \<open>0\<close>,
  not \<open>6\<close>. Second run: the same batch with the state database refusing the write: the
  group's transaction has committed and no position is written, so the position is not
  part of the destination transaction.
\<close>

theorem rows_synced_reset:
  "(case processBatch env_ok 0 pool_one of
      None \<Rightarrow> False
    | Some p' \<Rightarrow>
        map_option RowsSynced (GetSyncState (wp_store pool_one) ''users'') = Some 5
      \<and> applied p' = [(0, ''users'', [ev_users 100])]
      \<and> length (concat (map Rows [ev_users 100])) = 1
      \<and> map_option RowsSynced (GetSyncState (wp_store p') ''users'') = Some 0)
   \<and> (case processBatch (env_ok\<lparr>sio := \<lambda>t. Some (ErrDriver ''gone'')\<rparr>) 0 pool_one of
      None \<Rightarrow> False
    | Some p' \<Rightarrow>
        applied p' = [(0, ''users'', [ev_users 100])]
      \<and> wp_store p' = wp_store pool_one)"
  by (simp add: processBatch_def pool_one_def env_ok_def iteration_order_def ev_users_def
      eventsByTable_def processGroup_def applyChanges_def ExecTx_def driver_ok_def
      updateState_def UpdateSyncState_def state_users_def GetSyncState_def)

text \<open>
  C3, amended. For a table group of the batch whose transaction commits: the group is
  the batch's events of the table in the order received and is applied as one
  transaction; the destination's data is as before (the transaction holds no statement
  and no position); then, in a statement of its own on the state store, the row of the
  table is written with \<open>binlog_file\<close> and \<open>binlog_position\<close> of the group's last event,
  and when the store refuses that statement the stored rows of the table stay as they
  were. When the positions do not decrease along the batch, the last event's position
  is the highest of the group.
\<close>

theorem position_written_after_commit:
  assumes P: "processBatch ev i p = Some p'"
    and E: "e \<in> set (batch (workers p ! i))"
    and T: "\<not> tx_fails (tx ev (Table e))"
  shows "(w_id (workers p ! i), Table e,
            filter (\<lambda>x. Table x = Table e) (batch (workers p ! i))) \<in> set (applied p')
       \<and> targetDB p' = targetDB p
       \<and> (sio ev (Table e) = None \<longrightarrow>
            (\<exists>row. GetSyncState (wp_store p') (Table e) = Some row
               \<and> BinlogFile row = Some (ev_BinlogFile
                   (last (filter (\<lambda>x. Table x = Table e) (batch (workers p ! i)))))
               \<and> BinlogPosition row = Some (ucast (BinlogPos
                   (last (filter (\<lambda>x. Table x = Table e) (batch (workers p ! i))))))))
       \<and> (sio ev (Table e) \<noteq> None \<longrightarrow>
            rows_of (wp_store p') (Table e) = rows_of (wp_store p) (Table e))
       \<and> (sorted (map position (batch (workers p ! i))) \<longrightarrow>
            position e \<le> position
              (last (filter (\<lambda>x. Table x = Table e) (batch (workers p ! i)))))"
proof -
  let ?b = "batch (workers p ! i)"
  let ?m = "eventsByTable ?b"
  let ?t = "Table e"
  let ?g = "filter (\<lambda>x. Table x = ?t) ?b"
  let ?c = "committed_tables ev ?m (order ev)"
  have ne: "?b \<noteq> []" using E by auto
  note S = processBatch_store [OF P ne]
  have m: "?m ?t = Some ?g" using E by (simp add: eventsByTable_eq)
  have ord: "distinct (order ev)" "?t \<in> set (order ev)"
    using S E by (auto simp: iteration_order_def)
  have c: "?t \<in> set ?c" "distinct ?c"
    using ord m T by (auto simp: committed_tables_def)
  have 1: "(w_id (workers p ! i), ?t, ?g) \<in> set (applied p')"
    using S c(1) m by (auto simp: image_iff intro!: bexI [of _ ?t])
  have 2: "targetDB p' = targetDB p" using S by simp
  have st: "wp_store p' =
      foldl (\<lambda>s t. updateState (sio ev t) (now ev) t (last (the (?m t))) s) (wp_store p) ?c"
    using S by simp
  have 3: "\<exists>row. GetSyncState (wp_store p') ?t = Some row
               \<and> BinlogFile row = Some (ev_BinlogFile (last ?g))
               \<and> BinlogPosition row = Some (ucast (BinlogPos (last ?g)))"
    if "sio ev ?t = None"
    unfolding st
    using updateStates_get [of ?t ?c "sio ev" "now ev" "\<lambda>t. last (the (?m t))" "wp_store p"]
      c that m
    by simp
  have 4: "rows_of (wp_store p') ?t = rows_of (wp_store p) ?t" if "sio ev ?t \<noteq> None"
    unfolding st using that by (intro updateStates_unchanged) simp
  have 5: "position e \<le> position (last ?g)" if "sorted (map position ?b)"
    using sorted_last_max [OF that E, of "\<lambda>x. Table x = ?t"] by simp
  show ?thesis using 1 2 3 4 5 by blast
qed

theorem position_written_after_commit_witness:
  "(case processBatch env_ok 0 pool_one of
      None \<Rightarrow> False
    | Some p' \<Rightarrow>
        ev_users 100 \<in> set (batch (workers pool_one ! 0))
      \<and> \<not> tx_fails (tx env_ok (Table (ev_users 100)))
      \<and> (0, ''users'', [ev_users 100]) \<in> set (applied p')
      \<and> (\<exists>row. GetSyncState (wp_store p') ''users'' = Some row
            \<and> BinlogFile row = Some ''mysql-bin.000001''
            \<and> BinlogPosition row = Some 100))"
proof -
  obtain p' where P: "processBatch env_ok 0 pool_one = Some p'"
    by (simp add: pool_one_flush)
  have E: "ev_users 100 \<in> set (batch (workers pool_one ! 0))"
    by (simp add: pool_one_def)
  have T: "\<not> tx_fails (tx env_ok (Table (ev_users 100)))"
    by (simp add: tx_fails_def env_ok_def driver_ok_def)
  have S: "sio env_ok (Table (ev_users 100)) = None"
    by (simp add: env_ok_def)
  show ?thesis
    using position_written_after_commit [OF P E T] P E T S
    by (simp add: pool_one_def ev_users_def)
qed

section \<open>The worker pool: runs\<close>

lemmas eval_defs = run_step_def processBatch_def pool_two_def env_ok_def iteration_order_def ev_users_def
      eventsByTable_def processGroup_def applyChanges_def ExecTx_def driver_ok_def
      updateState_def UpdateSyncState_def GetSyncState_def applied_for_def holders_def Let_def

text \<open>
  C2, as stated, fails. The channel holds two events of \<open>users\<close>, at offsets 100 and 200,
  and the pool has two workers. Worker 0 receives the first and worker 1 the second: two
  workers hold events of \<open>users\<close> at once. Worker 1 flushes first: the events applied for
  \<open>users\<close> are the second alone, which is no prefix of the two in log order; after worker
  0 has flushed too they are applied in the order 200, 100 and the stored position is 100.
\<close>

theorem two_workers_same_table:
  "(case run_pool [(env_ok, 0, RecvEvent), (env_ok, 1, RecvEvent)] pool_two of
      None \<Rightarrow> False
    | Some p \<Rightarrow> map w_id (holders ''users'' p) = [0, 1])
   \<and> (case run_pool [(env_ok, 0, RecvEvent), (env_ok, 1, RecvEvent), (env_ok, 1, TickerFired)]
             pool_two of
      None \<Rightarrow> False
    | Some p \<Rightarrow> applied_for ''users'' p = [ev_users 200]
        \<and> \<not> prefix (applied_for ''users'' p) [ev_users 100, ev_users 200])
   \<and> (case run_pool [(env_ok, 0, RecvEvent), (env_ok, 1, RecvEvent), (env_ok, 1, TickerFired),
                      (env_ok, 0, TickerFired)] pool_two of
      None \<Rightarrow> False
    | Some p \<Rightarrow> applied_for ''users'' p = [ev_users 200, ev_users 100]
        \<and> map_option BinlogPosition (GetSyncState (wp_store p) ''users'') = Some (Some 100))"
  by (simp add: eval_defs)

lemma groups_for_table:
  "distinct c \<Longrightarrow>
   concat (map (\<lambda>g. snd (snd g)) (filter (\<lambda>g. fst (snd g) = t) (map (\<lambda>t'. (w, t', f t')) c)))
     = (if t \<in> set c then f t else [])"
  by (induction c) auto

lemma flush_applied_for:
  assumes P: "processBatch ev i p = Some p'" and T: "\<not> tx_fails (tx ev t)"
  shows "applied_for t p' = applied_for t p @ filter (\<lambda>e. Table e = t) (batch (workers p ! i))"
proof (cases "batch (workers p ! i) = []")
  case True
  then show ?thesis using P by (simp add: processBatch_def Let_def)
next
  case False
  let ?b = "batch (workers p ! i)"
  let ?m = "eventsByTable ?b"
  let ?c = "committed_tables ev ?m (order ev)"
  note S = processBatch_store [OF P False]
  have d: "distinct ?c" using S by (simp add: committed_tables_def iteration_order_def)
  have mem: "t \<in> set ?c \<longleftrightarrow> t \<in> Table ` set ?b"
    using S T by (auto simp: committed_tables_def iteration_order_def eventsByTable_eq)
  have "applied_for t p' = applied_for t p @ (if t \<in> set ?c then the (?m t) else [])"
    using S groups_for_table [OF d, of t "w_id (workers p ! i)" "\<lambda>t'. the (?m t')"]
    by (simp add: applied_for_def)
  also have "(if t \<in> set ?c then the (?m t) else []) = filter (\<lambda>e. Table e = t) ?b"
    unfolding mem by (auto simp: eventsByTable_eq filter_empty_conv eq_commute [of "[]"])
  finally show ?thesis .
qed

lemma flush_others:
  assumes P: "processBatch ev i p = Some p'"
  shows "wp_eventChan p' = wp_eventChan p \<and> length (workers p') = length (workers p)
       \<and> (\<forall>j. j \<noteq> i \<longrightarrow> workers p' ! j = workers p ! j)
       \<and> (i < length (workers p) \<longrightarrow> batch (workers p' ! i) = [])"
proof (cases "batch (workers p ! i) = []")
  case True
  then show ?thesis using P by (simp add: processBatch_def Let_def)
next
  case False
  show ?thesis using processBatch_store [OF P False] by simp
qed

lemma single_worker_step:
  assumes R: "run_step ev i wk p = Some p'" and L: "length (workers p) = 1"
    and T: "\<not> tx_fails (tx ev t)"
  shows "length (workers p') = 1
       \<and> applied_for t p' @ pending t p' = applied_for t p @ pending t p"
proof -
  have i: "i = 0" using R L by (auto simp: run_step_def split: if_splits)
  have ret: "applied_for t (worker_return 0 q) = applied_for t q
      \<and> pending t (worker_return 0 q) = pending t q
      \<and> length (workers (worker_return 0 q)) = length (workers q)" for q :: "('a, 'b) WorkerPool"
    by (cases "workers q") (auto simp: worker_return_def applied_for_def pending_def)
  have flush: "length (workers q') = 1 \<and> applied_for t q' @ pending t q' = applied_for t q @ pending t q"
    if "processBatch ev 0 q = Some q'" "length (workers q) = 1" for q q' :: "('a, 'b) WorkerPool"
    using flush_applied_for [OF that(1) T] flush_others [OF that(1)] that(2)
    by (simp add: pending_def)
  show ?thesis
  proof (cases wk)
    case RecvEvent
    show ?thesis
    proof (cases "buf (wp_eventChan p)")
      case Nil
      then obtain q where q: "processBatch ev 0 p = Some q" "p' = worker_return 0 q"
        using R RecvEvent i by (auto simp: run_step_def split: if_splits)
      then show ?thesis using flush [OF q(1) L] ret [of q] by simp
    next
      case (Cons e rest)
      let ?w = "workers p ! 0"
      let ?p1 = "p\<lparr>wp_eventChan := (wp_eventChan p)\<lparr>buf := rest\<rparr>,
                    workers := (workers p)[0 := ?w\<lparr>batch := batch ?w @ [e]\<rparr>]\<rparr>"
      have p1: "length (workers ?p1) = 1 \<and> applied_for t ?p1 @ pending t ?p1 = applied_for t p @ pending t p"
        using L Cons by (cases "workers p") (auto simp: applied_for_def pending_def)
      have "p' = ?p1 \<or> processBatch ev 0 ?p1 = Some p'"
        using R RecvEvent i Cons by (auto simp: run_step_def Let_def split: if_splits)
      then show ?thesis
      proof
        assume "p' = ?p1" then show ?thesis using p1 by simp
      next
        assume "processBatch ev 0 ?p1 = Some p'"
        from flush [OF this] p1 show ?thesis by simp
      qed
    qed
  next
    case TickerFired
    then have "p' = p \<or> processBatch ev 0 p = Some p'"
      using R i by (auto simp: run_step_def split: if_splits)
    then show ?thesis using flush [of p p'] L by auto
  next
    case CtxDone
    then obtain q where q: "processBatch ev 0 p = Some q" "p' = worker_return 0 q"
      using R i by (auto simp: run_step_def split: if_splits)
    then show ?thesis using flush [OF q(1) L] ret [of q] by simp
  qed
qed

lemma single_worker_run:
  assumes "run_pool sched p = Some p'" "length (workers p) = 1"
    and "\<forall>x \<in> set sched. \<not> tx_fails (tx (fst x) t)"
  shows "applied_for t p' @ pending t p' = applied_for t p @ pending t p"
  using assms
proof (induction sched arbitrary: p)
  case Nil
  then show ?case by simp
next
  case (Cons a sched)
  obtain ev i wk where a: "a = (ev, i, wk)" by (cases a) auto
  from Cons.prems(1) a obtain q where q: "run_step ev i wk p = Some q" "run_pool sched q = Some p'"
    by (auto split: option.splits)
  have T: "\<not> tx_fails (tx ev t)" using Cons.prems(3) a by simp
  from single_worker_step [OF q(1) Cons.prems(2) T] Cons.IH [OF q(2)] Cons.prems(3)
  show ?case by simp
qed

lemma receive_one_worker:
  assumes R: "run_step ev i RecvEvent p = Some p'" and B: "buf (wp_eventChan p) = e # rest"
  shows "buf (wp_eventChan p') = rest
       \<and> (\<forall>j. j \<noteq> i \<longrightarrow> workers p' ! j = workers p ! j)
       \<and> (batch (workers p' ! i) = batch (workers p ! i) @ [e] \<or> batch (workers p' ! i) = [])"
proof -
  let ?w = "workers p ! i"
  let ?p1 = "p\<lparr>wp_eventChan := (wp_eventChan p)\<lparr>buf := rest\<rparr>,
                workers := (workers p)[i := ?w\<lparr>batch := batch ?w @ [e]\<rparr>]\<rparr>"
  have i: "i < length (workers p)" using R by (auto simp: run_step_def split: if_splits)
  have "p' = ?p1 \<or> processBatch ev i ?p1 = Some p'"
    using R B by (auto simp: run_step_def Let_def split: if_splits)
  then show ?thesis
  proof
    assume "p' = ?p1" then show ?thesis using i by simp
  next
    assume "processBatch ev i ?p1 = Some p'"
    from flush_others [OF this] i show ?thesis by simp
  qed
qed

text \<open>
  C2, amended. A received event leaves the shared channel and goes to the batch of the
  worker that received it, and no other worker changes (the event is then in that batch,
  or the batch was flushed at once). A flush applies, for a table whose transaction
  commits, exactly the flushing worker's events of that table, in the order received.
  With a single worker, starting with nothing applied and an empty batch, and no failing
  transaction for the table, the events applied for the table followed by those still
  pending are the events of the table in the channel at the start: what is applied is a
  prefix of them.
\<close>

theorem shared_queue_order:
  "(run_step ev i RecvEvent p = Some p' \<and> buf (wp_eventChan p) = e # rest \<longrightarrow>
      buf (wp_eventChan p') = rest
    \<and> (\<forall>j. j \<noteq> i \<longrightarrow> workers p' ! j = workers p ! j)
    \<and> (batch (workers p' ! i) = batch (workers p ! i) @ [e] \<or> batch (workers p' ! i) = []))
   \<and> (processBatch ev i p = Some p' \<and> \<not> tx_fails (tx ev t) \<longrightarrow>
      applied_for t p' =
        applied_for t p @ filter (\<lambda>x. Table x = t) (batch (workers p ! i)))
   \<and> (run_pool sched p = Some p' \<and> length (workers p) = 1
        \<and> (\<forall>x \<in> set sched. \<not> tx_fails (tx (fst x) t))
        \<and> applied p = [] \<and> batch (workers p ! 0) = [] \<longrightarrow>
      applied_for t p' @ pending t p' = filter (\<lambda>x. Table x = t) (buf (wp_eventChan p))
    \<and> prefix (applied_for t p') (filter (\<lambda>x. Table x = t) (buf (wp_eventChan p))))"
proof -
  have "applied_for t p' @ pending t p' = filter (\<lambda>x. Table x = t) (buf (wp_eventChan p))
    \<and> prefix (applied_for t p') (filter (\<lambda>x. Table x = t) (buf (wp_eventChan p)))"
    if "run_pool sched p = Some p'" "length (workers p) = 1"
       "\<forall>x \<in> set sched. \<not> tx_fails (tx (fst x) t)" "applied p = []" "batch (workers p ! 0) = []"
  proof -
    have "applied_for t p' @ pending t p' = filter (\<lambda>x. Table x = t) (buf (wp_eventChan p))"
      using single_worker_run [OF that(1,2,3)] that(4,5)
      by (simp add: applied_for_def pending_def)
    then show ?thesis by (metis prefixI)
  qed
  then show ?thesis
    using receive_one_worker [of ev i p p' e rest] flush_applied_for [of ev i p p' t]
    by blast
qed

theorem shared_queue_order_witness:
  "(case run_pool [(env_ok, 0, RecvEvent), (env_ok, 0, RecvEvent), (env_ok, 0, TickerFired)]
           pool_single of
      None \<Rightarrow> False
    | Some p' \<Rightarrow>
        length (workers pool_single) = 1
      \<and> applied_for ''users'' p' = [ev_users 100, ev_users 200]
      \<and> prefix (applied_for ''users'' p')
          (filter (\<lambda>x. Table x = ''users'') (buf (wp_eventChan pool_single))))"
proof -
  let ?sched = "[(env_ok, 0, RecvEvent), (env_ok, 0, RecvEvent), (env_ok, 0, TickerFired)]"
  obtain p' where R: "run_pool ?sched pool_single = Some p'"
    and A: "applied_for ''users'' p' = [ev_users 100, ev_users 200]"
    by (simp add: eval_defs pool_single_def)
  have L: "length (workers pool_single) = 1" by (simp add: pool_single_def)
  have T: "\<forall>x \<in> set ?sched. \<not> tx_fails (tx (fst x) ''users'')"
    by (simp add: tx_fails_def env_ok_def driver_ok_def)
  have E: "applied pool_single = []" "batch (workers pool_single ! 0) = []"
    by (simp_all add: pool_single_def pool_two_def)
  show ?thesis
    using shared_queue_order [of env_ok 0 pool_single p' "ev_users 100" "[]" "''users''" ?sched]
      R A L T E
    by simp
qed

section \<open>The binlog listener: enqueueing\<close>

lemma tableMap_eq:
  "foldl (\<lambda>m t. m(Name t \<mapsto> True)) m0 tbls n =
     (if n \<in> Name ` set tbls then Some True else m0 n)"
  by (induction tbls arbitrary: m0) auto

lemma NewBinlogListener_ok:
  assumes "NewBinlogListener newCanal cf tbls = Inr l"
  shows "eventChan l = \<lparr>buf = [], cap = 10000, closed = False\<rparr>
       \<and> \<not> l_ctx_done l
       \<and> (tables l n \<noteq> None \<longleftrightarrow> n \<in> Name ` set tbls)"
  using assms
  by (auto simp: NewBinlogListener_def Let_def tableMap_eq split: option.splits if_splits)

text \<open>
  C8. For a row event of an allow-listed table (its action one of the three that canal
  emits) and a channel that is not closed: when the buffer has room and the context is
  not cancelled, \<^verbatim>\<open>OnRow\<close> returns nil with the event appended behind everything the
  channel held; when the buffer is full and the context is not cancelled, the call
  stays suspended and nothing changes; when the context is cancelled, the call returns
  the context's error and the channel is as it was (with room in the buffer Go may
  take either case). Nothing the channel holds is removed or moved. The listener built
  by \<^verbatim>\<open>NewBinlogListener\<close> has an empty channel of capacity 10000.
\<close>

theorem OnRow_enqueue:
  assumes allow: "tables l (Table_Name e) \<noteq> None"
    and act: "Action e = ''insert'' \<or> Action e = ''update'' \<or> Action e = ''delete''"
    and op: "\<not> closed (eventChan l)"
  shows "OnRow pick pos l e =
     (if length (buf (eventChan l)) < cap (eventChan l) \<and> (l_ctx_done l \<longrightarrow> pick)
      then Returns None
        (l\<lparr>eventChan := (eventChan l)\<lparr>buf := buf (eventChan l) @
           [\<lparr>Type = (if Action e = ''insert'' then Insert
                      else if Action e = ''update'' then Update else Delete),
             Schema = Table_Schema e, Table = Table_Name e, Rows = re_Rows e,
             Timestamp = Header_Timestamp e,
             ev_BinlogFile = fst pos, BinlogPos = snd pos\<rparr>]\<rparr>\<rparr>)
      else if l_ctx_done l then Returns (Some ErrContextCanceled) l
      else Suspended)
    \<and> (NewBinlogListener newCanal cf tbls = Inr l \<longrightarrow>
         eventChan l = \<lparr>buf = [], cap = 10000, closed = False\<rparr>)"
  using assms NewBinlogListener_ok [of newCanal cf tbls l]
  by (auto simp: OnRow_def Let_def)

theorem OnRow_enqueue_witness:
  "(case NewBinlogListener (\<lambda>c. None) users_cfg [users_table] of
      Inl err \<Rightarrow> False
    | Inr l \<Rightarrow>
        tables l (Table_Name insert_users) \<noteq> None \<and> \<not> closed (eventChan l)
      \<and> cap (eventChan l) = 10000
      \<and> (case OnRow True (''mysql-bin.000001'', 100) l insert_users of
           Returns err l' \<Rightarrow> err = None \<and> buf (eventChan l') = [ev_users 100]
         | Suspended \<Rightarrow> False | Panics \<Rightarrow> False)
      \<and> OnRow True (''mysql-bin.000001'', 100)
           (l\<lparr>eventChan := \<lparr>buf = [ev_users 4], cap = 1, closed = False\<rparr>\<rparr>) insert_users
         = Suspended
      \<and> OnRow True (''mysql-bin.000001'', 100)
           (l\<lparr>eventChan := \<lparr>buf = [ev_users 4], cap = 1, closed = False\<rparr>,
               l_ctx_done := True\<rparr>) insert_users
         = Returns (Some ErrContextCanceled)
             (l\<lparr>eventChan := \<lparr>buf = [ev_users 4], cap = 1, closed = False\<rparr>,
               l_ctx_done := True\<rparr>))"
proof -
  obtain l :: "nat BinlogListener" where
    L: "NewBinlogListener (\<lambda>c. None) users_cfg [users_table] = Inr l"
    by (simp add: NewBinlogListener_def)
  note K = NewBinlogListener_ok [OF L]
  have A: "tables l (Table_Name insert_users) \<noteq> None"
    using K [of "''users''"] by (simp add: insert_users_def users_table_def)
  have B: "Action insert_users = ''insert'' \<or> Action insert_users = ''update''
      \<or> Action insert_users = ''delete''"
    by (simp add: insert_users_def)
  have C: "\<not> closed (eventChan l)" using K by simp
  let ?full = "l\<lparr>eventChan := \<lparr>buf = [ev_users 4], cap = 1, closed = False\<rparr>\<rparr>"
  have A': "tables ?full (Table_Name insert_users) \<noteq> None"
    "tables (?full\<lparr>l_ctx_done := True\<rparr>) (Table_Name insert_users) \<noteq> None"
    using A by simp_all
  show ?thesis
    using A C K
      OnRow_enqueue [OF A B C, of True "(''mysql-bin.000001'', 100)"]
      OnRow_enqueue [OF A'(1) B, of True "(''mysql-bin.000001'', 100)"]
      OnRow_enqueue [OF A'(2) B, of True "(''mysql-bin.000001'', 100)"]
    by (simp add: L insert_users_def ev_users_def)
qed

section \<open>The conflict engine: hashing and resolution\<close>

lemma canonical_idem: "canonical (canonical m) = canonical m"
  unfolding canonical_def
  by (simp add: sorted_sort_key sort_key_id_if_sorted)

lemma canonical_perm:
  assumes "distinct (map fst x)" "mset y = mset x"
  shows "canonical y = canonical x"
  by (metis assms(1,2) canonical_def distinct_map sort_key_eq_sort_key)

text \<open>
  C9. Putting the entries of a row image in canonical order (by key) is idempotent, and
  listing the entries of an image with distinct keys in another order changes neither
  the canonical order, nor the bytes \<^verbatim>\<open>json.Marshal\<close> produces, nor the hash computed by
  \<^verbatim>\<open>calculateHash\<close>, whatever the hash function and the encodings of keys and values.
\<close>

theorem canonical_stable:
  "canonical (canonical x) = canonical x
   \<and> (distinct (map fst x) \<and> mset y = mset x \<longrightarrow>
        canonical y = canonical x
      \<and> json_Marshal lib (Some y) = json_Marshal lib (Some x)
      \<and> calculateHash lib (Some y) = calculateHash lib (Some x))"
  using canonical_perm [of x y]
  by (auto simp: canonical_idem json_Marshal_def calculateHash_def)

theorem canonical_stable_witness:
  "distinct (map fst [(''id'', 1::nat), (''updated_at'', 5)])
   \<and> mset [(''updated_at'', 5), (''id'', 1::nat)] = mset [(''id'', 1), (''updated_at'', 5)]
   \<and> calculateHash test_lib (Some [(''updated_at'', 5), (''id'', 1)])
       = calculateHash test_lib (Some [(''id'', 1), (''updated_at'', 5)])"
  using canonical_stable [of "[(''id'', 1::nat), (''updated_at'', 5)]"
      "[(''updated_at'', 5), (''id'', 1::nat)]" test_lib]
  by simp

lemma of_char_hex_digit:
  "n < 16 \<Longrightarrow> (of_char (hex_digit n) :: nat) = (if n < 10 then 48 + n else 87 + n)"
  by (simp add: hex_digit_def)

lemma hex_digit_inj:
  assumes "m < 16" "n < 16" "hex_digit m = hex_digit n"
  shows "m = n"
proof -
  have "(of_char (hex_digit m) :: nat) = of_char (hex_digit n)" using assms(3) by simp
  then show ?thesis
    using assms(1,2) by (simp add: of_char_hex_digit split: if_splits)
qed

lemma hex_byte_inj:
  assumes "hex_digit (of_char c div 16) = hex_digit (of_char d div 16)"
    and "hex_digit (of_char c mod 16) = hex_digit (of_char d mod 16)"
  shows "c = d"
proof -
  have c: "(of_char c :: nat) < 256" "(of_char d :: nat) < 256" by simp_all
  then have "(of_char c :: nat) div 16 < 16" "(of_char d :: nat) div 16 < 16" by presburger+
  then have 1: "(of_char c :: nat) div 16 = of_char d div 16"
    using assms(1) by (intro hex_digit_inj) auto
  have 2: "(of_char c :: nat) mod 16 = of_char d mod 16"
    using assms(2) by (intro hex_digit_inj) auto
  have "(of_char c :: nat) = of_char d"
    using 1 2 by (metis div_mult_mod_eq)
  then show ?thesis by simp
qed

lemma hex_inj: "hex a = hex b \<Longrightarrow> a = b"
proof (induction a arbitrary: b)
  case Nil
  then show ?case by (cases b) (auto simp: hex_def)
next
  case (Cons c a)
  then obtain d b' where b: "b = d # b'" by (cases b) (auto simp: hex_def)
  from Cons.prems b have "c = d" "hex a = hex b'"
    by (auto simp: hex_def intro: hex_byte_inj)
  then show ?case using Cons.IH b by simp
qed

lemma DetectConflict_iff:
  "fst (DetectConflict lib uuid nw table pk l c) \<longleftrightarrow>
     sha256_Sum256 lib (case json_Marshal lib l of None \<Rightarrow> [] | Some b \<Rightarrow> b)
       \<noteq> sha256_Sum256 lib (case json_Marshal lib c of None \<Rightarrow> [] | Some b \<Rightarrow> b)"
  using hex_inj by (auto simp: DetectConflict_def calculateHash_def Let_def)

lemma marshal_local: "json_Marshal (test_lib\<lparr>sha256_Sum256 := sha\<rparr>) image_local = Some bytes_local"
  by (simp add: json_Marshal_def canonical_def test_lib_def image_local_def decimal_def
      char_of_eq_iff bytes_local_def)

lemma marshal_cloud: "json_Marshal (test_lib\<lparr>sha256_Sum256 := sha\<rparr>) image_cloud = Some bytes_cloud"
  by (simp add: json_Marshal_def canonical_def test_lib_def image_cloud_def decimal_def
      char_of_eq_iff bytes_cloud_def)

text \<open>
  C6, at the input where the code departs from it. \<^verbatim>\<open>DetectConflict\<close> reports a conflict
  exactly when the SHA-256 digests of the JSON encodings of the whole images differ; no
  column is left out. The local and the cloud image below have the same columns and the
  same \<open>id\<close> and differ only in \<open>updated_at\<close>; their encodings differ, and a conflict is
  reported exactly when the hash function tells the two encodings apart.
\<close>

theorem DetectConflict_timestamp_only:
  "map_of (the image_local) ''id'' = map_of (the image_cloud) ''id''
   \<and> fst ` set (the image_local) = {''id'', ''updated_at''}
   \<and> fst ` set (the image_cloud) = {''id'', ''updated_at''}
   \<and> bytes_local \<noteq> bytes_cloud
   \<and> (fst (DetectConflict (test_lib\<lparr>sha256_Sum256 := sha\<rparr>) uuid nw ''users'' ''1''
             image_local image_cloud)
        \<longleftrightarrow> sha bytes_local \<noteq> sha bytes_cloud)"
proof -
  have "bytes_local \<noteq> bytes_cloud" by (simp add: bytes_local_def bytes_cloud_def)
  moreover have "fst (DetectConflict (test_lib\<lparr>sha256_Sum256 := sha\<rparr>) uuid nw ''users'' ''1''
             image_local image_cloud) \<longleftrightarrow> sha bytes_local \<noteq> sha bytes_cloud"
    by (simp add: DetectConflict_iff marshal_local marshal_cloud)
  ultimately show ?thesis
    by (auto simp: image_local_def image_cloud_def)
qed

text \<open>
  C7, at every input. \<^verbatim>\<open>LastWriteWinsStrategy.Resolve\<close> returns the parsed local image
  and a nil error; the result depends neither on the cloud image nor on the timestamp
  column of the strategy, and no result stands for a degradation to manual.
\<close>

theorem Resolve_returns_local:
  "Resolve lib strat conflict = (json_Unmarshal lib (LocalData conflict), None)
   \<and> Resolve lib strat' (conflict\<lparr>CloudData := cd\<rparr>) = Resolve lib strat conflict"
  by (simp add: Resolve_def)

section \<open>The sync manager: start\<close>

text \<open>
  C1, at the input where the code departs from it. \<^verbatim>\<open>Manager.Start\<close> does not read the
  store: its error and the listener it constructs are the same for every content of the
  store, and the store is left as it is. For a store that holds the position
  \<open>(mysql-bin.000001, 4)\<close> for \<open>users\<close>, the listener's canal configuration is the
  address, the credentials, the server id and the table filter; it holds no position.
\<close>

theorem Start_ignores_store:
  "fst (Start newCanal (m\<lparr>store := s\<rparr>)) = fst (Start newCanal m)
   \<and> binlogListener (snd (Start newCanal (m\<lparr>store := s\<rparr>)))
       = binlogListener (snd (Start newCanal m))
   \<and> store (snd (Start newCanal m)) = store m
   \<and> GetSyncState (store manager_users) ''users'' = Some state_users
   \<and> fst (Start (\<lambda>c. None) manager_users) = None
   \<and> map_option canal (binlogListener (snd (Start (\<lambda>c. None) manager_users)))
       = Some \<lparr>Addr = ''db.local:3306'', canal_User = ''repl'', canal_Password = ''rpw'',
               Flavor = ''mysql'', ServerID = 100, Dump_ExecutionPath = [],
               IncludeTableRegex = [''^app'' @ [CHR 0x5C] @ ''.users$'']\<rparr>
   \<and> map_option eventChan (binlogListener (snd (Start (\<lambda>c. None) manager_users)))
       = Some \<lparr>buf = [], cap = 10000, closed = False\<rparr>"
proof -
  have g: "fst (Start newCanal (m\<lparr>store := s\<rparr>)) = fst (Start newCanal m)
   \<and> binlogListener (snd (Start newCanal (m\<lparr>store := s\<rparr>)))
       = binlogListener (snd (Start newCanal m))
   \<and> store (snd (Start newCanal m)) = store m"
    by (auto simp: Start_def split: sum.splits)
  have c: "GetSyncState (store manager_users) ''users'' = Some state_users"
    by (simp add: GetSyncState_def manager_users_def state_users_def)
  have d: "decimal 3306 = ''3306''"
    by (simp add: decimal_def char_of_eq_iff)
  have e: "Start (\<lambda>c. None) manager_users =
     (None, manager_users\<lparr>binlogListener := Some
         \<lparr>l_cfg = users_cfg,
          canal = \<lparr>Addr = ''db.local:3306'', canal_User = ''repl'', canal_Password = ''rpw'',
               Flavor = ''mysql'', ServerID = 100, Dump_ExecutionPath = [],
               IncludeTableRegex = [''^app'' @ [CHR 0x5C] @ ''.users$'']\<rparr>,
          eventChan = \<lparr>buf = [], cap = 10000, closed = False\<rparr>,
          l_ctx_done = False, tables = [''users'' \<mapsto> True]\<rparr>,
        workerPool := Some (NewWorkerPool (Sync (cfg manager_users)) () (store manager_users)
           \<lparr>buf = [], cap = 10000, closed = False\<rparr>),
        status := ''running''\<rparr>)"
    by (simp add: Start_def NewBinlogListener_def manager_users_def users_cfg_def
        users_table_def d)
  show ?thesis using g c by (simp add: e)
qed

end
